theory Spec2Isabelle
  imports Complex_Main "HOL-Library.Sublist" "HOL-Library.Multiset"
begin


section \<open>JavaScript values and string primitives\<close>

text \<open>
  The values that \<^verbatim>\<open>JSON.parse\<close> produces, and \<^verbatim>\<open>undefined\<close> for a property that is not
  there. A number is the real number it denotes. A string is the list of its code units,
  taken below 256. An object is the list of its own properties, each key once.
  A thrown error is a value of type \<open>exn\<close>; a computation that may throw returns
  \<open>exn + 'a\<close>, with \<open>Inl\<close> for the throw.
\<close>

datatype jsval =
    JUndefined
  | JNull
  | JBool bool
  | JNum real
  | JStr string
  | JArr "jsval list"
  | JObj "(string \<times> jsval) list"

datatype exn = Error string | TypeError string | SyntaxError string

fun message :: "exn \<Rightarrow> string" where
  "message (Error m) = m"
| "message (TypeError m) = m"
| "message (SyntaxError m) = m"

fun truthy :: "jsval \<Rightarrow> bool" where
  "truthy JUndefined = False"
| "truthy JNull = False"
| "truthy (JBool b) = b"
| "truthy (JNum r) = (r \<noteq> 0)"
| "truthy (JStr s) = (s \<noteq> [])"
| "truthy (JArr xs) = True"
| "truthy (JObj kvs) = True"

text \<open>\<^verbatim>\<open>a || b\<close>\<close>

definition js_or :: "jsval \<Rightarrow> jsval \<Rightarrow> jsval" where
  "js_or a b = (if truthy a then a else b)"

text \<open>
  Reading a property: of \<^verbatim>\<open>null\<close> and \<^verbatim>\<open>undefined\<close> it throws a \<^verbatim>\<open>TypeError\<close>; of an object
  it gives the property's value, or \<^verbatim>\<open>undefined\<close>; the property names read by this program
  are defined on no other value.
\<close>

definition lookup_opt :: "(string \<times> jsval) list \<Rightarrow> string \<Rightarrow> jsval" where
  "lookup_opt kvs k = (case map_of kvs k of None \<Rightarrow> JUndefined | Some v \<Rightarrow> v)"

fun getProp :: "jsval \<Rightarrow> string \<Rightarrow> exn + jsval" where
  "getProp JUndefined k = Inl (TypeError (''Cannot read properties of undefined (reading '' @ [CHR 0x27] @ k @ [CHR 0x27] @ '')''))"
| "getProp JNull k = Inl (TypeError (''Cannot read properties of null (reading '' @ [CHR 0x27] @ k @ [CHR 0x27] @ '')''))"
| "getProp (JObj kvs) k = Inr (lookup_opt kvs k)"
| "getProp v k = Inr JUndefined"

text \<open>\<^verbatim>\<open>trim\<close>, \<^verbatim>\<open>startsWith\<close>, \<^verbatim>\<open>split(',')\<close> and \<^verbatim>\<open>split(/[\r\n]+/)\<close>\<close>

definition isWhiteSpace :: "char \<Rightarrow> bool" where
  "isWhiteSpace c = (of_char c \<in> {9, 10, 11, 12, 13, 32, 160 :: nat})"

definition trim :: "string \<Rightarrow> string" where
  "trim s = rev (dropWhile isWhiteSpace (rev (dropWhile isWhiteSpace s)))"

definition startsWith :: "string \<Rightarrow> string \<Rightarrow> bool" where
  "startsWith s p = prefix p s"

fun split_aux :: "char \<Rightarrow> string \<Rightarrow> string \<Rightarrow> string list" where
  "split_aux sep acc [] = [rev acc]"
| "split_aux sep acc (c # cs) =
     (if c = sep then rev acc # split_aux sep [] cs else split_aux sep (c # acc) cs)"

definition split :: "string \<Rightarrow> char \<Rightarrow> string list" where
  "split s sep = split_aux sep [] s"

definition isLineBreak :: "char \<Rightarrow> bool" where
  "isLineBreak c = (c = CHR 0x0D \<or> c = CHR 0x0A)"

function splitLines_aux :: "string \<Rightarrow> string \<Rightarrow> string list" where
  "splitLines_aux acc [] = [rev acc]"
| "splitLines_aux acc (c # cs) =
     (if isLineBreak c then rev acc # splitLines_aux [] (dropWhile isLineBreak cs)
      else splitLines_aux (c # acc) cs)"
  by pat_completeness auto
termination
  by (relation "measure (\<lambda>(acc, s). length s)")
     (auto simp: length_dropWhile_le less_Suc_eq_le)

definition splitLines :: "string \<Rightarrow> string list" where
  "splitLines s = splitLines_aux [] s"

text \<open>\<^verbatim>\<open>String(n)\<close> for a natural number, and \<^verbatim>\<open>padStart\<close>\<close>

fun String :: "nat \<Rightarrow> string" where
  "String n = (if n < 10 then [''0123456789'' ! n]
               else String (n div 10) @ [''0123456789'' ! (n mod 10)])"

declare String.simps [simp del]

definition padStart :: "string \<Rightarrow> nat \<Rightarrow> char \<Rightarrow> string" where
  "padStart s n c = replicate (n - length s) c @ s"

definition defaultName :: "nat \<Rightarrow> string" where
  "defaultName k = ''PDF_'' @ padStart (String k) 3 (CHR ''0'') @ ''.pdf''"


section \<open>URL set parser (parseUrls)\<close>

text \<open>
  \<^verbatim>\<open>JSON.parse\<close> is a parameter. A property that an item does not have is \<^verbatim>\<open>undefined\<close>.
  The two \<^verbatim>\<open>forEach\<close> loops carry the index and the array \<^verbatim>\<open>urls\<close> built so far; the
  callback of the structured loop may throw, which ends the loop.
\<close>

record work_item =
  url :: jsval
  label :: jsval
  fileName :: jsval

definition bind_exn :: "exn + 'a \<Rightarrow> ('a \<Rightarrow> exn + 'b) \<Rightarrow> exn + 'b" where
  "bind_exn r f = (case r of Inl e \<Rightarrow> Inl e | Inr v \<Rightarrow> f v)"

definition part :: "string list \<Rightarrow> nat \<Rightarrow> jsval" where
  "part parts i = (if i < length parts then JStr (parts ! i) else JUndefined)"

definition parseLine :: "nat \<Rightarrow> string \<Rightarrow> work_item option" where
  "parseLine idx line =
     (let parts = map trim (split line (CHR '',''))
      in case part parts 0 of
           JStr u \<Rightarrow>
             if u \<noteq> [] \<and> (startsWith u ''http://'' \<or> startsWith u ''https://'')
             then Some \<lparr>url = JStr u,
                        label = js_or (part parts 1) (JStr []),
                        fileName = js_or (part parts 2) (JStr (defaultName (idx + 1)))\<rparr>
             else None
         | _ \<Rightarrow> None)"

fun forEach_lines :: "string list \<Rightarrow> nat \<Rightarrow> work_item list \<Rightarrow> work_item list" where
  "forEach_lines [] idx urls = urls"
| "forEach_lines (line # rest) idx urls =
     forEach_lines rest (Suc idx)
       (case parseLine idx line of Some w \<Rightarrow> urls @ [w] | None \<Rightarrow> urls)"

definition parseItem :: "nat \<Rightarrow> jsval \<Rightarrow> exn + work_item option" where
  "parseItem idx item =
     (case item of
        JStr s \<Rightarrow>
          Inr (Some \<lparr>url = JStr s, label = JUndefined,
                     fileName = JStr (defaultName (idx + 1))\<rparr>)
      | _ \<Rightarrow>
          bind_exn (getProp item ''url'') (\<lambda>u.
            if truthy u then
              bind_exn (getProp item ''fileName'') (\<lambda>fn.
              bind_exn (getProp item ''name'') (\<lambda>nm.
              bind_exn (getProp item ''label'') (\<lambda>lb.
              bind_exn (getProp item ''description'') (\<lambda>ds.
                Inr (Some \<lparr>url = u,
                           label = js_or lb (js_or ds (JStr [])),
                           fileName = js_or fn (js_or nm (JStr (defaultName (idx + 1))))\<rparr>)))))
            else Inr None))"

fun forEach_items :: "jsval list \<Rightarrow> nat \<Rightarrow> work_item list \<Rightarrow> exn + work_item list" where
  "forEach_items [] idx urls = Inr urls"
| "forEach_items (item # rest) idx urls =
     (case parseItem idx item of
        Inl e \<Rightarrow> Inl e
      | Inr (Some w) \<Rightarrow> forEach_items rest (Suc idx) (urls @ [w])
      | Inr None \<Rightarrow> forEach_items rest (Suc idx) urls)"

definition parseUrls :: "(string \<Rightarrow> exn + jsval) \<Rightarrow> string \<Rightarrow> string \<Rightarrow> exn + work_item list" where
  "parseUrls JSON_parse input format =
     (if format = ''json'' then
        (case bind_exn (JSON_parse input)
                (\<lambda>data. case data of JArr items \<Rightarrow> forEach_items items 0 [] | _ \<Rightarrow> Inr []) of
           Inl e \<Rightarrow> Inl (Error ''Invalid JSON format'')
         | Inr urls \<Rightarrow> Inr urls)
      else
        Inr (forEach_lines (filter (\<lambda>line. trim line \<noteq> []) (splitLines input)) 0 []))"

section \<open>Conversion client (convertUrlToPdf)\<close>

text \<open>
  The rendering service is external. Its reaction to the one request that
  \<^verbatim>\<open>convertUrlToPdf\<close> issues is one of the three events the function listens for: the
  response has ended (status code and concatenated body chunks), the request emitted
  \<^verbatim>\<open>error\<close>, or the socket stayed idle for 60000 ms.
\<close>

datatype transport =
    Response nat string
  | RequestError exn
  | Timeout

datatype conversion =
    Success jsval jsval
  | Failure jsval jsval

definition postData :: "jsval \<Rightarrow> jsval \<Rightarrow> (string \<times> jsval) list \<Rightarrow> jsval" where
  "postData u name options =
     JObj [(''url'', u), (''inline'', JBool False), (''fileName'', name),
           (''options'', JObj (options @
              [(''delay'', js_or (lookup_opt options ''delay'') (JNum 3000)),
               (''width'', js_or (lookup_opt options ''width'') (JStr ''1920px'')),
               (''height'', js_or (lookup_opt options ''height'') (JStr ''1080px''))]))]"

definition onEnd :: "(string \<Rightarrow> exn + jsval) \<Rightarrow> string \<Rightarrow> jsval \<Rightarrow> conversion" where
  "onEnd JSON_parse data name =
     (case bind_exn (JSON_parse data) (\<lambda>response.
             bind_exn (getProp response ''FileUrl'') (\<lambda>fileUrl.
               if truthy fileUrl then Inr (Success fileUrl name)
               else bind_exn (getProp response ''Error'') (\<lambda>e1.
                    bind_exn (getProp response ''error'') (\<lambda>e2.
                      Inr (Failure (js_or e1 (js_or e2 (JStr ''Unknown API error''))) name))))) of
        Inr r \<Rightarrow> r
      | Inl e \<Rightarrow> Failure (JStr (''JSON parse error: '' @ message e)) name)"

definition convertUrlToPdf ::
  "(string \<Rightarrow> exn + jsval) \<Rightarrow> (jsval \<Rightarrow> transport) \<Rightarrow> jsval \<Rightarrow> jsval \<Rightarrow> (string \<times> jsval) list
     \<Rightarrow> conversion" where
  "convertUrlToPdf JSON_parse https_request u name options =
     (case https_request (postData u name options) of
        Response statusCode data \<Rightarrow> onEnd JSON_parse data name
      | RequestError e \<Rightarrow> Failure (JStr (message e)) name
      | Timeout \<Rightarrow> Failure (JStr ''Request timeout'') name)"


section \<open>Artifact fetcher (downloadPdf)\<close>

text \<open>
  The first request has a response listener, an \<^verbatim>\<open>error\<close> listener and a 120000 ms
  idle timer; the redirected request has a response listener and an \<^verbatim>\<open>error\<close>
  listener only. The network's reaction to each request is one of the events that the
  request is subscribed to. A redirect response carries its \<^verbatim>\<open>Location\<close> header. The
  second component of the result is what has happened to the file at \<^verbatim>\<open>localPath\<close>.
\<close>

datatype protocol = Https | Http

datatype get_outcome =
    GetResponse nat string string
  | GetError exn
  | GetTimeout

datatype redirect_outcome =
    RedirectResponse nat string
  | RedirectError exn

datatype download = Resolved string | Rejected exn

datatype file_effect = Untouched | Unlinked | Written string

definition protocolOf :: "string \<Rightarrow> protocol" where
  "protocolOf u = (if startsWith u ''https'' then Https else Http)"

definition downloadPdf ::
  "(protocol \<Rightarrow> string \<Rightarrow> get_outcome) \<Rightarrow> (protocol \<Rightarrow> string \<Rightarrow> redirect_outcome)
     \<Rightarrow> jsval \<Rightarrow> string \<Rightarrow> download \<times> file_effect" where
  "downloadPdf get redirect_get pdfUrl path =
     (case pdfUrl of
        JStr u \<Rightarrow>
          (case get (protocolOf u) u of
             GetResponse statusCode location body \<Rightarrow>
               if statusCode = 301 \<or> statusCode = 302 then
                 (case redirect_get (protocolOf location) location of
                    RedirectResponse redirectStatus redirectBody \<Rightarrow>
                      (Resolved path, Written redirectBody)
                  | RedirectError err \<Rightarrow> (Rejected err, Unlinked))
               else if statusCode = 200 then (Resolved path, Written body)
               else (Rejected (Error (''HTTP '' @ String statusCode)), Unlinked)
           | GetError err \<Rightarrow> (Rejected err, Unlinked)
           | GetTimeout \<Rightarrow> (Rejected (Error ''Download timeout''), Unlinked))
      | _ \<Rightarrow> (Rejected (TypeError ''pdfUrl.startsWith is not a function''), Untouched))"


section \<open>Batch scheduler (processUrls)\<close>

record entry = work_item +
  index :: nat

record artifact = entry +
  localPath :: string

record failure = entry +
  error :: jsval

record batch_result =
  success :: "artifact list"
  failed :: "failure list"
  total :: nat

datatype settled = Succeeded artifact | Failed failure

datatype progress =
    BatchStart nat nat nat nat
  | ItemSuccess nat jsval jsval
  | ItemFailed nat jsval jsval jsval

datatype step = RunBatch "work_item list" | Pause nat

text \<open>
  The environment of one run: the JSON decoder, the reaction of the rendering service
  and of the download hosts to the requests made for the item with a given index, the
  path library, and the order in which the concurrently running items of a batch
  settle.
\<close>

record env =
  env_parse :: "string \<Rightarrow> exn + jsval"
  env_request :: "nat \<Rightarrow> jsval \<Rightarrow> transport"
  env_get :: "nat \<Rightarrow> protocol \<Rightarrow> string \<Rightarrow> get_outcome"
  env_redirect :: "nat \<Rightarrow> protocol \<Rightarrow> string \<Rightarrow> redirect_outcome"
  env_join :: "string \<Rightarrow> jsval \<Rightarrow> exn + string"
  env_order :: "nat \<Rightarrow> settled list \<Rightarrow> settled list"

text \<open>
  The state of a run: the \<^verbatim>\<open>results\<close> object, the calls made to \<^verbatim>\<open>onProgress\<close> (an
  event sink that returns normally, when one is passed), and the scheduling steps taken
  (each awaited \<^verbatim>\<open>Promise.all\<close> over a batch, each pacing timer).
\<close>

record run_state =
  results :: batch_result
  events :: "progress list"
  schedule :: "step list"

definition batchSize :: nat where
  "batchSize = 5"

definition delayBetweenBatches :: nat where
  "delayBetweenBatches = 2000"

text \<open>
  One item: the body of the asynchronous callback, from the conversion to the push it
  ends with. A fault of \<^verbatim>\<open>path.join\<close> and a rejected download are caught alike.
\<close>

definition processItem :: "env \<Rightarrow> string \<Rightarrow> nat \<Rightarrow> work_item \<Rightarrow> settled" where
  "processItem env outputDir k item =
     (let name = js_or (fileName item) (JStr (defaultName k));
          lbl = js_or (label item) (JStr [])
      in case convertUrlToPdf (env_parse env) (env_request env k) (url item) name [] of
           Success fileUrl n \<Rightarrow>
             (case bind_exn (env_join env outputDir name) (\<lambda>path.
                     case fst (downloadPdf (env_get env k) (env_redirect env k) fileUrl path) of
                       Resolved p \<Rightarrow> Inr path
                     | Rejected err \<Rightarrow> Inl err) of
                Inr path \<Rightarrow>
                  Succeeded \<lparr>url = url item, label = lbl, fileName = name, index = k,
                             localPath = path\<rparr>
              | Inl err \<Rightarrow>
                  Failed \<lparr>url = url item, label = lbl, fileName = name, index = k,
                          error = JStr (message err)\<rparr>)
         | Failure err n \<Rightarrow>
             Failed \<lparr>url = url item, label = lbl, fileName = name, index = k, error = err\<rparr>)"

definition report :: "bool \<Rightarrow> progress \<Rightarrow> run_state \<Rightarrow> run_state" where
  "report onProgress ev st = (if onProgress then st\<lparr>events := events st @ [ev]\<rparr> else st)"

definition settle :: "bool \<Rightarrow> run_state \<Rightarrow> settled \<Rightarrow> run_state" where
  "settle onProgress st s =
     (case s of
        Succeeded a \<Rightarrow>
          report onProgress (ItemSuccess (index a) (fileName a) (url a))
            (st\<lparr>results := (results st)\<lparr>success := success (results st) @ [a]\<rparr>\<rparr>)
      | Failed f \<Rightarrow>
          report onProgress (ItemFailed (index f) (fileName f) (url f) (error f))
            (st\<lparr>results := (results st)\<lparr>failed := failed (results st) @ [f]\<rparr>\<rparr>))"

text \<open>
  The loop over the batches. The callbacks of a batch run to their end in the order the
  environment gives; each then pushes its entry and reports it.
\<close>

function processBatches ::
  "env \<Rightarrow> string \<Rightarrow> bool \<Rightarrow> work_item list \<Rightarrow> nat \<Rightarrow> run_state \<Rightarrow> run_state" where
  "processBatches env outputDir onProgress urls i st =
     (if i < length urls then
        let batch = take batchSize (drop i urls);
            batchNumber = i div batchSize + 1;
            totalBatches = (length urls + batchSize - 1) div batchSize;
            st1 = report onProgress (BatchStart batchNumber totalBatches i (length urls)) st;
            batchPromises = map (\<lambda>(idx, item). processItem env outputDir (i + idx + 1) item)
                              (zip [0..<length batch] batch);
            st2 = foldl (settle onProgress)
                    (st1\<lparr>schedule := schedule st1 @ [RunBatch batch]\<rparr>)
                    (env_order env batchNumber batchPromises);
            st3 = (if i + batchSize < length urls
                   then st2\<lparr>schedule := schedule st2 @ [Pause delayBetweenBatches]\<rparr>
                   else st2)
        in processBatches env outputDir onProgress urls (i + batchSize) st3
      else st)"
  by pat_completeness auto
termination
  by (relation "measure (\<lambda>(env, outputDir, onProgress, urls, i, st). length urls - i)")
     (auto simp: batchSize_def)

declare processBatches.simps [simp del]

definition processUrls :: "env \<Rightarrow> work_item list \<Rightarrow> string \<Rightarrow> bool \<Rightarrow> run_state" where
  "processUrls env urls outputDir onProgress =
     processBatches env outputDir onProgress urls 0
       \<lparr>results = \<lparr>success = [], failed = [], total = length urls\<rparr>,
        events = [], schedule = []\<rparr>"


section \<open>Bundle-and-mail delivery (sendPdfsViaEmail)\<close>

text \<open>
  The archiver, the HTML rendering of the summary, the mail transport and the temporary
  directory are given by the environment: creating the archive either resolves with the
  archive's size, the file then being on disk, or rejects, a partial file being left or
  not; rendering returns the body or throws; preparing the transporter and the sender
  address returns the address or throws; sending returns the message id and the server's
  response or throws. The world is the set of paths that exist on disk and the mails the
  transport has accepted.
\<close>

datatype zip_outcome = ZipCreated nat | ZipFailed exn bool

record mail =
  mail_from :: jsval
  mail_to :: string
  mail_subject :: string
  mail_html :: string
  mail_attachment :: "string \<times> string"

datatype email_result = EmailSent jsval jsval | EmailFailed string

record mail_env =
  createZipFromPdfs :: "artifact list \<Rightarrow> string \<Rightarrow> jsval \<Rightarrow> zip_outcome"
  generateEmailHtml :: "batch_result \<Rightarrow> string \<Rightarrow> exn + string"
  initializeEmail :: "exn + jsval"
  sendMail :: "mail \<Rightarrow> exn + jsval \<times> jsval"
  tempDir :: string

record world =
  files :: "string set"
  outbox :: "mail list"

fun emailSuccess :: "email_result \<Rightarrow> bool" where
  "emailSuccess (EmailSent messageId response) = True"
| "emailSuccess (EmailFailed err) = False"

definition sendEmailWithZip ::
  "mail_env \<Rightarrow> string \<Rightarrow> string \<Rightarrow> string \<Rightarrow> string \<Rightarrow> string \<Rightarrow> world
     \<Rightarrow> (exn + email_result) \<times> world" where
  "sendEmailWithZip env recipientEmail subj htmlBody zipPath zipFileName w =
     (case initializeEmail env of
        Inl e \<Rightarrow> (Inl e, w)
      | Inr fromEmail \<Rightarrow>
          (let mailOptions = \<lparr>mail_from = fromEmail, mail_to = recipientEmail,
                               mail_subject = subj, mail_html = htmlBody,
                               mail_attachment = (zipFileName, zipPath)\<rparr>
           in case sendMail env mailOptions of
                Inr (messageId, response) \<Rightarrow>
                  (Inr (EmailSent messageId response), w\<lparr>outbox := outbox w @ [mailOptions]\<rparr>)
              | Inl e \<Rightarrow> (Inr (EmailFailed (message e)), w)))"

definition isAlnum :: "char \<Rightarrow> bool" where
  "isAlnum c = (let n = (of_char c :: nat)
                in (48 \<le> n \<and> n \<le> 57) \<or> (65 \<le> n \<and> n \<le> 90) \<or> (97 \<le> n \<and> n \<le> 122))"

definition sanitize :: "string \<Rightarrow> string" where
  "sanitize folderName = map (\<lambda>c. if isAlnum c then c else CHR ''_'') folderName"

text \<open>
  \<^verbatim>\<open>(size / 1024 / 1024).toFixed(2)\<close>: both divisions are exact in binary floating point,
  and \<^verbatim>\<open>toFixed\<close> rounds the exact value to the nearest hundredth, a tie going up.
\<close>

definition megabytes :: "nat \<Rightarrow> string" where
  "megabytes bytes =
     (let n = (bytes * 200 + 1048576) div 2097152
      in String (n div 100) @ ''.'' @ padStart (String (n mod 100)) 2 (CHR ''0''))"

definition maxSize :: nat where
  "maxSize = 25 * 1024 * 1024"

definition unlinkSync :: "string \<Rightarrow> world \<Rightarrow> exn + world" where
  "unlinkSync path w =
     (if path \<in> files w then Inr (w\<lparr>files := files w - {path}\<rparr>)
      else Inl (Error (''ENOENT: no such file or directory, unlink '' @ [CHR 0x27] @ path @ [CHR 0x27])))"

definition sendPdfs_try ::
  "mail_env \<Rightarrow> artifact list \<Rightarrow> string \<Rightarrow> string \<Rightarrow> batch_result \<Rightarrow> jsval \<Rightarrow> string \<Rightarrow> string
     \<Rightarrow> world \<Rightarrow> (exn + email_result) \<times> world" where
  "sendPdfs_try env pdfFiles recipientEmail folderName summary indexContent zipFileName zipPath w =
     (case createZipFromPdfs env pdfFiles zipPath indexContent of
        ZipFailed e left \<Rightarrow>
          (Inl e, if left then w\<lparr>files := insert zipPath (files w)\<rparr> else w)
      | ZipCreated bytes \<Rightarrow>
          (let w1 = w\<lparr>files := insert zipPath (files w)\<rparr>
           in if bytes > maxSize then
                (case unlinkSync zipPath w1 of
                   Inl e \<Rightarrow> (Inl e, w1)
                 | Inr w2 \<Rightarrow>
                     (Inr (EmailFailed (''ZIP file too large ('' @ megabytes bytes
                        @ '' MB). Maximum is 25MB. Consider using Google Drive delivery instead.'')),
                      w2))
              else
                (case generateEmailHtml env summary folderName of
                   Inl e \<Rightarrow> (Inl e, w1)
                 | Inr htmlBody \<Rightarrow>
                     (case sendEmailWithZip env recipientEmail
                             (''Your PDFs are Ready: '' @ folderName) htmlBody zipPath zipFileName w1 of
                        (Inl e, w2) \<Rightarrow> (Inl e, w2)
                      | (Inr emailResult, w2) \<Rightarrow>
                          (case unlinkSync zipPath w2 of
                             Inl e \<Rightarrow> (Inl e, w2)
                           | Inr w3 \<Rightarrow> (Inr emailResult, w3))))))"

definition sendPdfsViaEmail ::
  "mail_env \<Rightarrow> artifact list \<Rightarrow> string \<Rightarrow> string \<Rightarrow> batch_result \<Rightarrow> jsval \<Rightarrow> world
     \<Rightarrow> email_result \<times> world" where
  "sendPdfsViaEmail env pdfFiles recipientEmail folderName summary indexContent w =
     (let zipFileName = sanitize folderName @ ''.zip'';
          zipPath = tempDir env @ ''/'' @ zipFileName
      in case sendPdfs_try env pdfFiles recipientEmail folderName summary indexContent
                zipFileName zipPath w of
           (Inr r, w1) \<Rightarrow> (r, w1)
         | (Inl e, w1) \<Rightarrow>
             (EmailFailed (message e),
              if zipPath \<in> files w1 then w1\<lparr>files := files w1 - {zipPath}\<rparr> else w1))"


section \<open>Upload-and-share delivery (uploadPdfsToSharedFolder)\<close>

text \<open>
  The storage provider is external: each of the three remote operations either returns
  its value or throws. The upload operation is also given the position of the call in
  the loop, so that two uploads of the same file may end differently.
\<close>

datatype drive_file = DriveFile jsval jsval jsval

datatype upload_result = UploadOk jsval jsval jsval | UploadFailed jsval string

datatype drive_result =
    DriveShared jsval jsval jsval nat nat "upload_result list"
  | DriveFailed string

record drive_env =
  createFolder :: "string \<Rightarrow> exn + drive_file"
  uploadFile :: "nat \<Rightarrow> string \<Rightarrow> jsval \<Rightarrow> jsval \<Rightarrow> exn + drive_file"
  shareWithEmail :: "jsval \<Rightarrow> string \<Rightarrow> string \<Rightarrow> exn + jsval"

fun uploadSuccess :: "upload_result \<Rightarrow> bool" where
  "uploadSuccess (UploadOk name fileId link) = True"
| "uploadSuccess (UploadFailed name err) = False"

definition uploadOne :: "drive_env \<Rightarrow> jsval \<Rightarrow> nat \<Rightarrow> artifact \<Rightarrow> upload_result" where
  "uploadOne env folderId n pdf =
     (case uploadFile env n (localPath pdf) (fileName pdf) folderId of
        Inr (DriveFile fileId name link) \<Rightarrow> UploadOk (fileName pdf) fileId link
      | Inl e \<Rightarrow> UploadFailed (fileName pdf) (message e))"

fun uploadAll ::
  "drive_env \<Rightarrow> jsval \<Rightarrow> artifact list \<Rightarrow> nat \<Rightarrow> upload_result list \<Rightarrow> upload_result list" where
  "uploadAll env folderId [] n uploadResults = uploadResults"
| "uploadAll env folderId (pdf # rest) n uploadResults =
     uploadAll env folderId rest (Suc n) (uploadResults @ [uploadOne env folderId n pdf])"

definition uploadPdfsToSharedFolder ::
  "drive_env \<Rightarrow> artifact list \<Rightarrow> string \<Rightarrow> string \<Rightarrow> drive_result" where
  "uploadPdfsToSharedFolder env pdfFiles folderName recipientEmail =
     (case createFolder env folderName of
        Inl e \<Rightarrow> DriveFailed (message e)
      | Inr (DriveFile folderId name link) \<Rightarrow>
          (let uploadResults = uploadAll env folderId pdfFiles 0 []
           in case shareWithEmail env folderId recipientEmail ''reader'' of
                Inl e \<Rightarrow> DriveFailed (message e)
              | Inr shareLink \<Rightarrow>
                  DriveShared folderId name shareLink
                    (length (filter uploadSuccess uploadResults))
                    (length (filter (\<lambda>r. \<not> uploadSuccess r) uploadResults))
                    uploadResults))"


section \<open>Notions used in the statements\<close>

definition firstField :: "string \<Rightarrow> string" where
  "firstField line = trim (takeWhile (\<lambda>c. c \<noteq> CHR '','') line)"

definition hasUrlScheme :: "string \<Rightarrow> bool" where
  "hasUrlScheme u = (startsWith u ''http://'' \<or> startsWith u ''https://'')"

definition thirdField :: "string \<Rightarrow> jsval" where
  "thirdField line = part (map trim (split line (CHR '',''))) 2"

definition lookup :: "jsval \<Rightarrow> string \<Rightarrow> jsval" where
  "lookup item k = (case getProp item k of Inr v \<Rightarrow> v | Inl e \<Rightarrow> JUndefined)"

definition acceptedElement :: "jsval \<Rightarrow> bool" where
  "acceptedElement item = (case item of JStr s \<Rightarrow> True | _ \<Rightarrow> truthy (lookup item ''url''))"

definition namelessElement :: "jsval \<Rightarrow> bool" where
  "namelessElement item =
     (case item of JStr s \<Rightarrow> True
      | _ \<Rightarrow> \<not> truthy (lookup item ''fileName'') \<and> \<not> truthy (lookup item ''name''))"

definition elementUrl :: "jsval \<Rightarrow> jsval" where
  "elementUrl item = (case item of JStr s \<Rightarrow> JStr s | _ \<Rightarrow> lookup item ''url'')"

definition uploadFails :: "drive_env \<Rightarrow> jsval \<Rightarrow> artifact list \<Rightarrow> nat \<Rightarrow> bool" where
  "uploadFails env folderId pdfFiles k =
     isl (uploadFile env k (localPath (pdfFiles ! k)) (fileName (pdfFiles ! k)) folderId)"

text \<open>
  Consecutive batches of \<open>n\<close> items, the last one possibly smaller, and the schedule
  that runs them one after the other with a pause after each batch but the last.
\<close>

function chunks :: "nat \<Rightarrow> 'a list \<Rightarrow> 'a list list" where
  "chunks n xs = (if n = 0 \<or> xs = [] then [] else take n xs # chunks n (drop n xs))"
  by pat_completeness auto
termination
  by (relation "measure (\<lambda>(n, xs). length xs)") auto

declare chunks.simps [simp del]


text \<open>The effect of one iteration of the loop of \<^verbatim>\<open>processUrls\<close> on the state of the run.\<close>

definition batchStep ::
  "env \<Rightarrow> string \<Rightarrow> bool \<Rightarrow> work_item list \<Rightarrow> nat \<Rightarrow> run_state \<Rightarrow> run_state" where
  "batchStep env outputDir onProgress urls i st =
     (let batch = take batchSize (drop i urls);
          batchNumber = i div batchSize + 1;
          totalBatches = (length urls + batchSize - 1) div batchSize;
          st1 = report onProgress (BatchStart batchNumber totalBatches i (length urls)) st;
          batchPromises = map (\<lambda>(idx, item). processItem env outputDir (i + idx + 1) item)
                            (zip [0..<length batch] batch);
          st2 = foldl (settle onProgress)
                  (st1\<lparr>schedule := schedule st1 @ [RunBatch batch]\<rparr>)
                  (env_order env batchNumber batchPromises)
      in if i + batchSize < length urls
         then st2\<lparr>schedule := schedule st2 @ [Pause delayBetweenBatches]\<rparr>
         else st2)"

text \<open>
  The items classified so far, as a multiset; the conversion outcome, the output name
  and the download outcome of the item at position \<open>k\<close> of the input (index \<open>k + 1\<close>).
\<close>

definition classified :: "run_state \<Rightarrow> settled multiset" where
  "classified st =
     mset (map Succeeded (success (results st))) + mset (map Failed (failed (results st)))"

definition nameOf :: "work_item list \<Rightarrow> nat \<Rightarrow> jsval" where
  "nameOf urls k = js_or (fileName (urls ! k)) (JStr (defaultName (Suc k)))"

definition conversionOf :: "env \<Rightarrow> work_item list \<Rightarrow> nat \<Rightarrow> conversion" where
  "conversionOf env urls k =
     convertUrlToPdf (env_parse env) (env_request env (Suc k)) (url (urls ! k)) (nameOf urls k) []"

definition downloadOf :: "env \<Rightarrow> nat \<Rightarrow> jsval \<Rightarrow> string \<Rightarrow> download" where
  "downloadOf env k fileUrl path =
     fst (downloadPdf (env_get env (Suc k)) (env_redirect env (Suc k)) fileUrl path)"

definition settlesFairly :: "env \<Rightarrow> bool" where
  "settlesFairly env = (\<forall>b xs. mset (env_order env b xs) = mset xs)"

fun settledIndex :: "settled \<Rightarrow> nat" where
  "settledIndex (Succeeded a) = index a"
| "settledIndex (Failed f) = index f"

text \<open>
  A sample run for the instances below: twelve items; the conversion of item 2 times
  out and that of item 3 is refused, the download of item 1 answers 404, and the items
  of a batch settle in reverse order.
\<close>

definition sampleEnv :: env where
  "sampleEnv =
     \<lparr>env_parse = (\<lambda>s. if s = ''ok'' then Inr (JObj [(''FileUrl'', JStr ''https://files/x.pdf'')])
                        else Inr (JObj [(''Error'', JStr ''blocked'')])),
      env_request = (\<lambda>k body. if k = 2 then Timeout
                               else if k = 3 then Response 200 ''no'' else Response 200 ''ok''),
      env_get = (\<lambda>k p u. if k = 1 then GetResponse 404 [] [] else GetResponse 200 [] ''%PDF''),
      env_redirect = (\<lambda>k p u. RedirectError (Error ''unreachable'')),
      env_join = (\<lambda>dir name. case name of JStr s \<Rightarrow> Inr (dir @ ''/'' @ s)
                                | _ \<Rightarrow> Inl (TypeError ''The path argument must be of type string'')),
      env_order = (\<lambda>b xs. rev xs)\<rparr>"

definition sampleUrls :: "work_item list" where
  "sampleUrls =
     map (\<lambda>k. \<lparr>url = JStr ''https://site/page'', label = JStr [], fileName = JStr (defaultName k)\<rparr>)
       [1..<13]"

section \<open>Properties of the URL set parser\<close>

lemma split_aux_head:
  "\<exists>rest. split_aux sep acc s = (rev acc @ takeWhile (\<lambda>c. c \<noteq> sep) s) # rest"
proof (induction s arbitrary: acc)
  case Nil
  then show ?case by simp
next
  case (Cons c cs)
  show ?case using Cons.IH [of "c # acc"] by simp
qed

lemma part0_split: "part (map trim (split line sep)) 0 = JStr (trim (takeWhile (\<lambda>c. c \<noteq> sep) line))"
proof -
  obtain rest where "split_aux sep [] line = (rev [] @ takeWhile (\<lambda>c. c \<noteq> sep) line) # rest"
    using split_aux_head by blast
  then show ?thesis by (simp add: part_def split_def)
qed

lemma hasUrlScheme_nonempty: "hasUrlScheme u \<Longrightarrow> u \<noteq> []"
  by (auto simp: hasUrlScheme_def startsWith_def)

lemma parseLine_eq:
  "parseLine idx line =
     (if hasUrlScheme (firstField line)
      then Some \<lparr>url = JStr (firstField line),
                 label = js_or (part (map trim (split line (CHR '',''))) 1) (JStr []),
                 fileName = js_or (thirdField line) (JStr (defaultName (idx + 1)))\<rparr>
      else None)"
  using hasUrlScheme_nonempty [of "firstField line"]
  by (auto simp: parseLine_def part0_split Let_def firstField_def thirdField_def hasUrlScheme_def)

lemma forEach_lines_acc: "forEach_lines ls idx urls = urls @ forEach_lines ls idx []"
proof (induction ls arbitrary: idx urls)
  case Nil
  then show ?case by simp
next
  case (Cons l ls)
  show ?case
  proof (cases "parseLine idx l")
    case None
    then show ?thesis using Cons.IH [of "Suc idx" urls] by simp
  next
    case (Some w)
    then show ?thesis
      using Cons.IH [of "Suc idx" "urls @ [w]"] Cons.IH [of "Suc idx" "[w]"] by simp
  qed
qed

lemma forEach_lines_append:
  "forEach_lines (xs @ ys) idx urls = forEach_lines ys (idx + length xs) (forEach_lines xs idx urls)"
  by (induction xs arbitrary: idx urls) auto

lemma forEach_lines_urls:
  "map url (forEach_lines ls idx []) = map JStr (filter hasUrlScheme (map firstField ls))"
proof (induction ls arbitrary: idx)
  case Nil
  then show ?case by simp
next
  case (Cons l ls)
  show ?case
    using Cons.IH [of "Suc idx"] forEach_lines_acc [of ls "Suc idx" "[_]"]
    by (simp add: parseLine_eq)
qed

lemma forEach_lines_length:
  "length (forEach_lines ls idx []) = length (filter (\<lambda>l. hasUrlScheme (firstField l)) ls)"
proof -
  have "length (map url (forEach_lines ls idx [])) = length (filter hasUrlScheme (map firstField ls))"
    by (simp only: forEach_lines_urls length_map)
  then show ?thesis by (simp add: filter_map comp_def)
qed

lemma trim_empty_iff: "trim s = [] \<longleftrightarrow> (\<forall>c \<in> set s. isWhiteSpace c)"
proof
  assume "trim s = []"
  then have "dropWhile isWhiteSpace (rev (dropWhile isWhiteSpace s)) = []"
    by (simp add: trim_def)
  then have a: "\<forall>c \<in> set (dropWhile isWhiteSpace s). isWhiteSpace c"
    by (simp add: dropWhile_eq_Nil_conv)
  have "dropWhile isWhiteSpace s = []"
  proof (cases "dropWhile isWhiteSpace s")
    case Nil
    then show ?thesis .
  next
    case (Cons c cs)
    then have "\<not> isWhiteSpace c" using hd_dropWhile [of isWhiteSpace s] by simp
    with a Cons show ?thesis by simp
  qed
  then show "\<forall>c \<in> set s. isWhiteSpace c" by (simp add: dropWhile_eq_Nil_conv)
next
  assume "\<forall>c \<in> set s. isWhiteSpace c"
  then have "dropWhile isWhiteSpace s = []" by (metis dropWhile_eq_Nil_conv)
  then show "trim s = []" unfolding trim_def by (simp only: rev.simps dropWhile.simps)
qed

lemma blank_not_url: "trim line = [] \<Longrightarrow> \<not> hasUrlScheme (firstField line)"
proof -
  assume "trim line = []"
  then have "\<forall>c \<in> set line. isWhiteSpace c" by (simp add: trim_empty_iff)
  then have "\<forall>c \<in> set (takeWhile (\<lambda>c. c \<noteq> CHR '','') line). isWhiteSpace c"
    by (meson set_takeWhileD)
  then have "firstField line = []" by (simp add: firstField_def trim_empty_iff)
  then show ?thesis by (simp add: hasUrlScheme_def startsWith_def)
qed

lemma filter_nonblank_urls:
  "filter hasUrlScheme (map firstField (filter (\<lambda>line. trim line \<noteq> []) ls))
     = filter hasUrlScheme (map firstField ls)"
  by (induction ls) (auto dest: blank_not_url)

lemma forEach_lines_nth:
  assumes "idx < length ls" and "parseLine idx (ls ! idx) = Some w"
  shows "length (filter (\<lambda>l. hasUrlScheme (firstField l)) (take idx ls)) < length (forEach_lines ls 0 [])
       \<and> forEach_lines ls 0 [] ! length (filter (\<lambda>l. hasUrlScheme (firstField l)) (take idx ls)) = w"
proof -
  let ?pre = "forEach_lines (take idx ls) 0 []"
  have ls: "ls = take idx ls @ (ls ! idx # drop (Suc idx) ls)"
    using assms(1) by (simp add: id_take_nth_drop [symmetric])
  have "forEach_lines ls 0 [] = forEach_lines (ls ! idx # drop (Suc idx) ls) idx ?pre"
    using forEach_lines_append [of "take idx ls" "ls ! idx # drop (Suc idx) ls" 0 "[]"] assms(1) ls
    by simp
  also have "\<dots> = forEach_lines (drop (Suc idx) ls) (Suc idx) (?pre @ [w])"
    using assms(2) by simp
  also have "\<dots> = (?pre @ [w]) @ forEach_lines (drop (Suc idx) ls) (Suc idx) []"
    by (rule forEach_lines_acc)
  finally have "length ?pre < length (forEach_lines ls 0 []) \<and> forEach_lines ls 0 [] ! length ?pre = w"
    by (simp add: nth_append)
  then show ?thesis by (simp add: forEach_lines_length)
qed


lemma parseItem_null: "\<exists>e. parseItem idx JNull = Inl e"
  by (simp add: parseItem_def bind_exn_def)

lemma parseItem_ok:
  assumes "item \<noteq> JNull" and "item \<noteq> JUndefined"
  shows "parseItem idx item =
           Inr (if acceptedElement item
                then Some \<lparr>url = elementUrl item,
                           label = (case item of JStr s \<Rightarrow> JUndefined
                                    | _ \<Rightarrow> js_or (lookup item ''label'')
                                            (js_or (lookup item ''description'') (JStr []))),
                           fileName = (if namelessElement item then JStr (defaultName (idx + 1))
                                       else js_or (lookup item ''fileName'') (lookup item ''name''))\<rparr>
                else None)"
  using assms
  by (cases item)
     (simp_all add: parseItem_def bind_exn_def acceptedElement_def elementUrl_def
        namelessElement_def lookup_def js_or_def)

lemma forEach_items_acc:
  "forEach_items xs idx urls =
     (case forEach_items xs idx [] of Inl e \<Rightarrow> Inl e | Inr ys \<Rightarrow> Inr (urls @ ys))"
proof (induction xs arbitrary: idx urls)
  case Nil
  then show ?case by simp
next
  case (Cons x xs)
  show ?case
  proof (cases "parseItem idx x")
    case (Inl e)
    then show ?thesis by simp
  next
    case (Inr r)
    show ?thesis
    proof (cases r)
      case None
      with Inr show ?thesis using Cons.IH [of "Suc idx" urls] by simp
    next
      case (Some w)
      with Inr show ?thesis
        using Cons.IH [of "Suc idx" "urls @ [w]"] Cons.IH [of "Suc idx" "[w]"]
        by (simp split: sum.splits)
    qed
  qed
qed

lemma forEach_items_null:
  "JNull \<in> set xs \<Longrightarrow> \<exists>e. forEach_items xs idx urls = Inl e"
proof (induction xs arbitrary: idx urls)
  case Nil
  then show ?case by simp
next
  case (Cons x xs)
  show ?case
  proof (cases "x = JNull")
    case True
    then show ?thesis using parseItem_null [of idx] by auto
  next
    case False
    with Cons.prems have "JNull \<in> set xs" by simp
    then show ?thesis using Cons.IH by (simp split: sum.splits option.splits)
  qed
qed

lemma forEach_items_ok:
  "\<forall>x \<in> set xs. x \<noteq> JNull \<and> x \<noteq> JUndefined \<Longrightarrow>
   \<exists>ys. forEach_items xs idx [] = Inr ys
        \<and> map url ys = map elementUrl (filter acceptedElement xs)"
proof (induction xs arbitrary: idx)
  case Nil
  then show ?case by simp
next
  case (Cons x xs)
  then have x: "x \<noteq> JNull" "x \<noteq> JUndefined" by simp_all
  from Cons obtain ys where ys: "forEach_items xs (Suc idx) [] = Inr ys"
    "map url ys = map elementUrl (filter acceptedElement xs)" by fastforce
  show ?case
  proof (cases "acceptedElement x")
    case True
    then show ?thesis
      using ys forEach_items_acc [of xs "Suc idx" "[_]"] by (simp add: parseItem_ok [OF x])
  next
    case False
    then show ?thesis using ys by (simp add: parseItem_ok [OF x])
  qed
qed

lemma forEach_items_append:
  "forEach_items (xs @ ys) idx urls =
     bind_exn (forEach_items xs idx urls) (forEach_items ys (idx + length xs))"
  by (induction xs arbitrary: idx urls) (auto simp: bind_exn_def split: sum.splits option.splits)

lemma forEach_items_nth:
  assumes ok: "\<forall>x \<in> set xs. x \<noteq> JNull \<and> x \<noteq> JUndefined"
    and idx: "idx < length xs" and acc: "acceptedElement (xs ! idx)"
  shows "\<exists>ys. forEach_items xs 0 [] = Inr ys
           \<and> length (filter acceptedElement (take idx xs)) < length ys
           \<and> url (ys ! length (filter acceptedElement (take idx xs))) = elementUrl (xs ! idx)
           \<and> (namelessElement (xs ! idx) \<longrightarrow>
                fileName (ys ! length (filter acceptedElement (take idx xs)))
                  = JStr (defaultName (idx + 1)))"
proof -
  let ?x = "xs ! idx"
  have xs: "xs = take idx xs @ (?x # drop (Suc idx) xs)"
    using idx by (simp add: id_take_nth_drop [symmetric])
  have x: "?x \<noteq> JNull" "?x \<noteq> JUndefined" using ok idx by simp_all
  have "\<forall>x \<in> set (take idx xs). x \<noteq> JNull \<and> x \<noteq> JUndefined"
    using ok by (meson in_set_takeD)
  then obtain pre where pre: "forEach_items (take idx xs) 0 [] = Inr pre"
    "map url pre = map elementUrl (filter acceptedElement (take idx xs))"
    using forEach_items_ok by blast
  have "\<forall>x \<in> set (drop (Suc idx) xs). x \<noteq> JNull \<and> x \<noteq> JUndefined"
    using ok by (meson in_set_dropD)
  then obtain post where post: "forEach_items (drop (Suc idx) xs) (Suc idx) [] = Inr post"
    using forEach_items_ok by blast
  obtain w where w: "parseItem idx ?x = Inr (Some w)" "url w = elementUrl ?x"
    "namelessElement ?x \<longrightarrow> fileName w = JStr (defaultName (idx + 1))"
    using acc by (simp add: parseItem_ok [OF x])
  have len: "length pre = length (filter acceptedElement (take idx xs))"
    using pre(2) by (metis length_map)
  have "forEach_items xs 0 [] = forEach_items (?x # drop (Suc idx) xs) idx pre"
    using forEach_items_append [of "take idx xs" "?x # drop (Suc idx) xs" 0 "[]"] xs pre(1) idx
    by (simp add: bind_exn_def)
  also have "\<dots> = forEach_items (drop (Suc idx) xs) (Suc idx) (pre @ [w])"
    using w(1) by simp
  also have "\<dots> = Inr ((pre @ [w]) @ post)"
    using forEach_items_acc [of "drop (Suc idx) xs" "Suc idx" "pre @ [w]"] post by simp
  finally have "forEach_items xs 0 [] = Inr (pre @ w # post)" by simp
  then show ?thesis using w(2,3) len by (auto simp: nth_append)
qed


lemmas parse_eval =
  parseUrls_def splitLines_def isLineBreak_def trim_def isWhiteSpace_def parseLine_def
  split_def part_def js_or_def startsWith_def defaultName_def padStart_def String.simps
  parseItem_def bind_exn_def

text \<open>
  Claim C9. In plain/delimited parsing (any format other than \<^verbatim>\<open>json\<close>) the parser never
  fails, and the URLs of the items it returns are, in order, exactly the trimmed first
  comma-separated fields of those lines of the input that begin with \<^verbatim>\<open>http://\<close> or
  \<^verbatim>\<open>https://\<close>: every such line yields one item, every other line, blank or not, yields
  none. The line \<^verbatim>\<open>not-a-url, label, file.pdf\<close> yields no item; the line
  \<^verbatim>\<open>https://x.com, L, f.pdf\<close> yields the item with that URL, label \<^verbatim>\<open>L\<close> and file name
  \<^verbatim>\<open>f.pdf\<close>.
\<close>

theorem parseUrls_text_lines:
  "(format \<noteq> ''json'' \<longrightarrow>
      (\<exists>items. parseUrls JSON_parse input format = Inr items
         \<and> map url items = map JStr (filter hasUrlScheme (map firstField (splitLines input)))))
   \<and> parseUrls JSON_parse ''not-a-url, label, file.pdf'' ''text'' = Inr []
   \<and> parseUrls JSON_parse ''https://x.com, L, f.pdf'' ''text''
       = Inr [\<lparr>url = JStr ''https://x.com'', label = JStr ''L'', fileName = JStr ''f.pdf''\<rparr>]"
proof (intro conjI impI)
  assume "format \<noteq> ''json''"
  then show "\<exists>items. parseUrls JSON_parse input format = Inr items
     \<and> map url items = map JStr (filter hasUrlScheme (map firstField (splitLines input)))"
    by (simp add: parseUrls_def forEach_lines_urls filter_nonblank_urls)
next
  show "parseUrls JSON_parse ''not-a-url, label, file.pdf'' ''text'' = Inr []"
    by (simp add: parse_eval)
next
  show "parseUrls JSON_parse ''https://x.com, L, f.pdf'' ''text''
       = Inr [\<lparr>url = JStr ''https://x.com'', label = JStr ''L'', fileName = JStr ''f.pdf''\<rparr>]"
    by (simp add: parse_eval)
qed

text \<open>An instance of C9: two lines, the first of which is not a URL line.\<close>

theorem parseUrls_text_lines_witness:
  "''text'' \<noteq> ''json''
   \<and> (\<exists>items. parseUrls (\<lambda>s. Inl (SyntaxError [])) ''ftp://a, b\<newline> http://c ,d'' ''text'' = Inr items
         \<and> map url items = [JStr ''http://c''])"
proof -
  have "filter hasUrlScheme (map firstField (splitLines ''ftp://a, b\<newline> http://c ,d''))
          = [''http://c'']"
    by (simp add: splitLines_def isLineBreak_def firstField_def trim_def isWhiteSpace_def
          hasUrlScheme_def startsWith_def)
  then show ?thesis
    using parseUrls_text_lines [of "''text''" "\<lambda>s. Inl (SyntaxError [])"
        "''ftp://a, b\<newline> http://c ,d''"]
    by simp
qed

text \<open>
  The default name does not follow the position in the accepted sequence: of the two
  lines \<^verbatim>\<open>ftp://x\<close> and \<^verbatim>\<open>https://a.com\<close> only the second is accepted, it is the first
  item of the output, and its default name is \<^verbatim>\<open>PDF_002.pdf\<close>, not \<^verbatim>\<open>PDF_001.pdf\<close>.
\<close>

theorem default_name_counterexample:
  "parseUrls (\<lambda>s. Inl (SyntaxError [])) ''ftp://x\<newline>https://a.com'' ''text''
     = Inr [\<lparr>url = JStr ''https://a.com'', label = JStr [], fileName = JStr ''PDF_002.pdf''\<rparr>]
   \<and> JStr ''PDF_002.pdf'' \<noteq> JStr (defaultName 1)"
  by (simp add: parse_eval numeral_2_eq_2)

text \<open>
  Claim C4, as the code has it. An accepted entry that carries no explicit file name gets
  the default name \<^verbatim>\<open>PDF_<k>.pdf\<close>, where \<^verbatim>\<open>k\<close> is the 1-based position of the entry in
  the source sequence (the non-blank lines in plain/delimited parsing, the elements of
  the decoded array in structured parsing), dropped entries counted, padded with zeros to
  at least three digits. The item itself stands in the output at the position given by
  the number of accepted entries before it. The structured input of a URL string
  followed by an object with \<^verbatim>\<open>url\<close> and \<^verbatim>\<open>fileName\<close> yields two items, the first named
  \<^verbatim>\<open>PDF_001.pdf\<close>, the second carrying its own name.
\<close>

theorem default_name_source_position:
  "(format \<noteq> ''json''
      \<and> idx < length (filter (\<lambda>line. trim line \<noteq> []) (splitLines input))
      \<and> hasUrlScheme (firstField (filter (\<lambda>line. trim line \<noteq> []) (splitLines input) ! idx))
      \<and> \<not> truthy (thirdField (filter (\<lambda>line. trim line \<noteq> []) (splitLines input) ! idx))
    \<longrightarrow> (\<exists>items. parseUrls JSON_parse input format = Inr items
          \<and> length (filter (\<lambda>l. hasUrlScheme (firstField l))
                (take idx (filter (\<lambda>line. trim line \<noteq> []) (splitLines input)))) < length items
          \<and> fileName (items ! length (filter (\<lambda>l. hasUrlScheme (firstField l))
                (take idx (filter (\<lambda>line. trim line \<noteq> []) (splitLines input)))))
              = JStr (defaultName (idx + 1))))
   \<and> (JSON_parse input = Inr (JArr elems)
      \<and> (\<forall>x \<in> set elems. x \<noteq> JNull \<and> x \<noteq> JUndefined)
      \<and> idx < length elems \<and> acceptedElement (elems ! idx) \<and> namelessElement (elems ! idx)
    \<longrightarrow> (\<exists>items. parseUrls JSON_parse input ''json'' = Inr items
          \<and> length (filter acceptedElement (take idx elems)) < length items
          \<and> fileName (items ! length (filter acceptedElement (take idx elems)))
              = JStr (defaultName (idx + 1))))
   \<and> (JSON_parse ex = Inr (JArr [JStr ''https://a.com'',
                                  JObj [(''url'', JStr ''https://b.com''), (''fileName'', JStr ''b.pdf'')]])
    \<longrightarrow> parseUrls JSON_parse ex ''json''
          = Inr [\<lparr>url = JStr ''https://a.com'', label = JUndefined, fileName = JStr ''PDF_001.pdf''\<rparr>,
                 \<lparr>url = JStr ''https://b.com'', label = JStr [], fileName = JStr ''b.pdf''\<rparr>])"
proof (intro conjI impI)
  let ?ls = "filter (\<lambda>line. trim line \<noteq> []) (splitLines input)"
  assume a: "format \<noteq> ''json'' \<and> idx < length ?ls \<and> hasUrlScheme (firstField (?ls ! idx))
      \<and> \<not> truthy (thirdField (?ls ! idx))"
  then have "\<exists>w. parseLine idx (?ls ! idx) = Some w \<and> fileName w = JStr (defaultName (idx + 1))"
    by (simp add: parseLine_eq js_or_def)
  then obtain w where w: "parseLine idx (?ls ! idx) = Some w"
    "fileName w = JStr (defaultName (idx + 1))" by blast
  from a have "idx < length ?ls" by simp
  from forEach_lines_nth [OF this w(1)] w(2) a
  show "\<exists>items. parseUrls JSON_parse input format = Inr items
          \<and> length (filter (\<lambda>l. hasUrlScheme (firstField l)) (take idx ?ls)) < length items
          \<and> fileName (items ! length (filter (\<lambda>l. hasUrlScheme (firstField l)) (take idx ?ls)))
              = JStr (defaultName (idx + 1))"
    by (simp add: parseUrls_def)
next
  assume a: "JSON_parse input = Inr (JArr elems)
      \<and> (\<forall>x \<in> set elems. x \<noteq> JNull \<and> x \<noteq> JUndefined)
      \<and> idx < length elems \<and> acceptedElement (elems ! idx) \<and> namelessElement (elems ! idx)"
  then obtain ys where "forEach_items elems 0 [] = Inr ys"
    "length (filter acceptedElement (take idx elems)) < length ys"
    "fileName (ys ! length (filter acceptedElement (take idx elems))) = JStr (defaultName (idx + 1))"
    using forEach_items_nth [of elems idx] by blast
  with a show "\<exists>items. parseUrls JSON_parse input ''json'' = Inr items
          \<and> length (filter acceptedElement (take idx elems)) < length items
          \<and> fileName (items ! length (filter acceptedElement (take idx elems)))
              = JStr (defaultName (idx + 1))"
    by (simp add: parseUrls_def bind_exn_def)
next
  assume "JSON_parse ex = Inr (JArr [JStr ''https://a.com'',
                                  JObj [(''url'', JStr ''https://b.com''), (''fileName'', JStr ''b.pdf'')]])"
  then show "parseUrls JSON_parse ex ''json''
          = Inr [\<lparr>url = JStr ''https://a.com'', label = JUndefined, fileName = JStr ''PDF_001.pdf''\<rparr>,
                 \<lparr>url = JStr ''https://b.com'', label = JStr [], fileName = JStr ''b.pdf''\<rparr>]"
    by (simp add: parse_eval lookup_opt_def numeral_2_eq_2)
qed


text \<open>
  An instance of C4 in both formats: the second entry is the only accepted one and is
  named \<^verbatim>\<open>PDF_002.pdf\<close>.
\<close>

theorem default_name_source_position_witness:
  "''text'' \<noteq> ''json''
   \<and> (1::nat) < length (filter (\<lambda>line. trim line \<noteq> []) (splitLines ''ftp://x\<newline>https://a.com''))
   \<and> hasUrlScheme (firstField (filter (\<lambda>line. trim line \<noteq> []) (splitLines ''ftp://x\<newline>https://a.com'') ! 1))
   \<and> \<not> truthy (thirdField (filter (\<lambda>line. trim line \<noteq> []) (splitLines ''ftp://x\<newline>https://a.com'') ! 1))
   \<and> JNull \<notin> set [JNum 5, JStr ''https://a.com'']
   \<and> JUndefined \<notin> set [JNum 5, JStr ''https://a.com'']
   \<and> acceptedElement ([JNum 5, JStr ''https://a.com''] ! 1)
   \<and> namelessElement ([JNum 5, JStr ''https://a.com''] ! 1)
   \<and> (\<exists>items. parseUrls (\<lambda>s. if s = ''E''
                    then Inr (JArr [JStr ''https://a.com'',
                           JObj [(''url'', JStr ''https://b.com''), (''fileName'', JStr ''b.pdf'')]])
                    else Inr (JArr [JNum 5, JStr ''https://a.com'']))
                  ''ftp://x\<newline>https://a.com'' ''text'' = Inr items
          \<and> 0 < length items \<and> fileName (items ! 0) = JStr (defaultName 2))
   \<and> (\<exists>items. parseUrls (\<lambda>s. if s = ''E''
                    then Inr (JArr [JStr ''https://a.com'',
                           JObj [(''url'', JStr ''https://b.com''), (''fileName'', JStr ''b.pdf'')]])
                    else Inr (JArr [JNum 5, JStr ''https://a.com'']))
                  ''ftp://x\<newline>https://a.com'' ''json'' = Inr items
          \<and> 0 < length items \<and> fileName (items ! 0) = JStr (defaultName 2))
   \<and> parseUrls (\<lambda>s. if s = ''E''
                    then Inr (JArr [JStr ''https://a.com'',
                           JObj [(''url'', JStr ''https://b.com''), (''fileName'', JStr ''b.pdf'')]])
                    else Inr (JArr [JNum 5, JStr ''https://a.com''])) ''E'' ''json''
       = Inr [\<lparr>url = JStr ''https://a.com'', label = JUndefined, fileName = JStr ''PDF_001.pdf''\<rparr>,
              \<lparr>url = JStr ''https://b.com'', label = JStr [], fileName = JStr ''b.pdf''\<rparr>]"
proof -
  let ?input = "''ftp://x\<newline>https://a.com''"
  let ?elems = "[JNum 5, JStr ''https://a.com'']"
  have ls: "filter (\<lambda>line. trim line \<noteq> []) (splitLines ?input) = [''ftp://x'', ''https://a.com'']"
    by (simp add: splitLines_def isLineBreak_def trim_def isWhiteSpace_def)
  have f0: "\<not> hasUrlScheme (firstField ''ftp://x'')"
    by (simp add: firstField_def trim_def isWhiteSpace_def hasUrlScheme_def startsWith_def)
  have f1: "hasUrlScheme (firstField ''https://a.com'')"
    by (simp add: firstField_def trim_def isWhiteSpace_def hasUrlScheme_def startsWith_def)
  have t1: "\<not> truthy (thirdField ''https://a.com'')"
    by (simp add: thirdField_def split_def part_def)
  have e: "\<not> acceptedElement (JNum 5)" "acceptedElement (JStr ''https://a.com'')"
    "namelessElement (JStr ''https://a.com'')"
    by (simp_all add: acceptedElement_def namelessElement_def lookup_def)
  show ?thesis
    using default_name_source_position [of "''text''" 1 ?input
        "(\<lambda>s. if s = ''E''
                    then Inr (JArr [JStr ''https://a.com'',
                           JObj [(''url'', JStr ''https://b.com''), (''fileName'', JStr ''b.pdf'')]])
                    else Inr (JArr [JNum 5, JStr ''https://a.com'']))" ?elems "''E''"]
    by (simp add: ls f0 f1 t1 e numeral_2_eq_2)
qed

text \<open>
  Claim C10. In structured parsing, when the input decodes to an array that contains a
  \<^verbatim>\<open>null\<close> element, the whole parse fails with the error \<^verbatim>\<open>Invalid JSON format\<close>. An object
  element without a truthy \<^verbatim>\<open>url\<close>, in an array with no \<^verbatim>\<open>null\<close>, is dropped and the other
  elements are parsed as if it were not there. Input that decodes to something other
  than an array yields the empty sequence and no error.
\<close>

theorem parseUrls_json_null_rejects:
  "(JSON_parse a = Inr (JArr elems) \<and> JNull \<in> set elems
      \<longrightarrow> parseUrls JSON_parse a ''json'' = Inl (Error ''Invalid JSON format''))
   \<and> (JSON_parse b = Inr (JArr (pre @ JObj kvs # post))
        \<and> \<not> truthy (lookup (JObj kvs) ''url'')
        \<and> (\<forall>x \<in> set (pre @ post). x \<noteq> JNull \<and> x \<noteq> JUndefined)
      \<longrightarrow> (\<exists>items. parseUrls JSON_parse b ''json'' = Inr items
            \<and> map url items = map elementUrl (filter acceptedElement (pre @ post))))
   \<and> (JSON_parse c = Inr data \<and> (\<forall>xs. data \<noteq> JArr xs)
      \<longrightarrow> parseUrls JSON_parse c ''json'' = Inr [])"
proof (intro conjI impI)
  assume "JSON_parse a = Inr (JArr elems) \<and> JNull \<in> set elems"
  then show "parseUrls JSON_parse a ''json'' = Inl (Error ''Invalid JSON format'')"
    using forEach_items_null [of elems 0 "[]"]
    by (auto simp: parseUrls_def bind_exn_def)
next
  assume h: "JSON_parse b = Inr (JArr (pre @ JObj kvs # post))
        \<and> \<not> truthy (lookup (JObj kvs) ''url'')
        \<and> (\<forall>x \<in> set (pre @ post). x \<noteq> JNull \<and> x \<noteq> JUndefined)"
  then have "\<forall>x \<in> set (pre @ JObj kvs # post). x \<noteq> JNull \<and> x \<noteq> JUndefined" by auto
  from forEach_items_ok [OF this, of 0] h
  show "\<exists>items. parseUrls JSON_parse b ''json'' = Inr items
            \<and> map url items = map elementUrl (filter acceptedElement (pre @ post))"
    by (auto simp: parseUrls_def bind_exn_def acceptedElement_def)
next
  assume "JSON_parse c = Inr data \<and> (\<forall>xs. data \<noteq> JArr xs)"
  then show "parseUrls JSON_parse c ''json'' = Inr []"
    by (cases data) (simp_all add: parseUrls_def bind_exn_def)
qed

text \<open>An instance of C10 for each of the three cases.\<close>

theorem parseUrls_json_null_rejects_witness:
  "parseUrls (\<lambda>s. if s = ''A'' then Inr (JArr [JStr ''https://a.com'', JNull])
                  else if s = ''B'' then Inr (JArr [JObj [(''label'', JStr ''x'')], JStr ''https://a.com''])
                  else Inr (JObj [(''url'', JStr ''https://a.com'')])) ''A'' ''json''
     = Inl (Error ''Invalid JSON format'')
   \<and> (\<exists>items. parseUrls (\<lambda>s. if s = ''A'' then Inr (JArr [JStr ''https://a.com'', JNull])
                  else if s = ''B'' then Inr (JArr [JObj [(''label'', JStr ''x'')], JStr ''https://a.com''])
                  else Inr (JObj [(''url'', JStr ''https://a.com'')])) ''B'' ''json'' = Inr items
         \<and> map url items = [JStr ''https://a.com''])
   \<and> parseUrls (\<lambda>s. if s = ''A'' then Inr (JArr [JStr ''https://a.com'', JNull])
                  else if s = ''B'' then Inr (JArr [JObj [(''label'', JStr ''x'')], JStr ''https://a.com''])
                  else Inr (JObj [(''url'', JStr ''https://a.com'')])) ''C'' ''json''
     = Inr []"
  using parseUrls_json_null_rejects [of
      "\<lambda>s. if s = ''A'' then Inr (JArr [JStr ''https://a.com'', JNull])
                  else if s = ''B'' then Inr (JArr [JObj [(''label'', JStr ''x'')], JStr ''https://a.com''])
                  else Inr (JObj [(''url'', JStr ''https://a.com'')])"
      "''A''" "[JStr ''https://a.com'', JNull]"
      "''B''" "[]" "[(''label'', JStr ''x'')]" "[JStr ''https://a.com'']"
      "''C''" "JObj [(''url'', JStr ''https://a.com'')]"]
  by (simp add: lookup_def lookup_opt_def acceptedElement_def elementUrl_def)

section \<open>Properties of the conversion client\<close>





section \<open>Properties of the artifact fetcher\<close>

text \<open>
  Claim C6 asks that a second redirect, or any status other than success, on the
  redirected request be an error. The redirected response is piped to the file without
  a look at its status: after a 302, a second 302 and a 404 both resolve, their bodies
  stored as the artifact, whereas the same 404 on the first request is rejected.
\<close>

theorem downloadPdf_redirect_unchecked:
  "downloadPdf (\<lambda>p u. GetResponse 302 ''https://b/x'' []) (\<lambda>p u. RedirectResponse 302 ''Moved'')
       (JStr ''https://a/x'') ''out/a.pdf''
     = (Resolved ''out/a.pdf'', Written ''Moved'')
   \<and> downloadPdf (\<lambda>p u. GetResponse 301 ''https://b/x'' []) (\<lambda>p u. RedirectResponse 404 ''Not Found'')
       (JStr ''https://a/x'') ''out/a.pdf''
     = (Resolved ''out/a.pdf'', Written ''Not Found'')
   \<and> downloadPdf (\<lambda>p u. GetResponse 404 [] ''Not Found'') (\<lambda>p u. RedirectResponse 200 [])
       (JStr ''https://a/x'') ''out/a.pdf''
     = (Rejected (Error ''HTTP 404''), Unlinked)"
  by (simp add: downloadPdf_def String.simps)

section \<open>Properties of the batch scheduler\<close>

lemma processBatches_step:
  "i < length urls \<Longrightarrow>
     processBatches env outputDir onProgress urls i st
       = processBatches env outputDir onProgress urls (i + batchSize)
           (batchStep env outputDir onProgress urls i st)"
  by (subst processBatches.simps) (simp add: batchStep_def Let_def)

lemma processBatches_done:
  "\<not> i < length urls \<Longrightarrow> processBatches env outputDir onProgress urls i st = st"
  by (subst processBatches.simps) simp

subsection \<open>The schedule\<close>

lemma schedule_report [simp]: "schedule (report onProgress ev st) = schedule st"
  by (simp add: report_def)

lemma schedule_settle [simp]: "schedule (settle onProgress st s) = schedule st"
  by (cases s) (simp_all add: settle_def)

lemma schedule_foldl_settle [simp]: "schedule (foldl (settle onProgress) st xs) = schedule st"
  by (induction xs arbitrary: st) simp_all


lemma chunks_Nil_iff: "chunks n xs = [] \<longleftrightarrow> n = 0 \<or> xs = []"
  by (subst chunks.simps) simp

lemma chunks_empty [simp]: "chunks n [] = []"
  by (simp add: chunks_Nil_iff)








subsection \<open>The classification of the items\<close>

lemma classified_report [simp]: "classified (report onProgress ev st) = classified st"
  by (simp add: report_def classified_def)

lemma classified_schedule [simp]: "classified (st\<lparr>schedule := x\<rparr>) = classified st"
  by (simp add: classified_def)

lemma classified_settle: "classified (settle onProgress st s) = classified st + {#s#}"
  by (cases s) (simp_all add: settle_def classified_def report_def)

lemma classified_foldl_settle:
  "classified (foldl (settle onProgress) st xs) = classified st + mset xs"
  by (induction xs arbitrary: st) (simp_all add: classified_settle)

lemma total_report [simp]: "total (results (report onProgress ev st)) = total (results st)"
  by (simp add: report_def)

lemma total_settle [simp]: "total (results (settle onProgress st s)) = total (results st)"
  by (cases s) (simp_all add: settle_def report_def)

lemma total_foldl_settle [simp]:
  "total (results (foldl (settle onProgress) st xs)) = total (results st)"
  by (induction xs arbitrary: st) simp_all

lemma total_batchStep [simp]:
  "total (results (batchStep env outputDir onProgress urls i st)) = total (results st)"
  by (simp add: batchStep_def Let_def)


lemma batch_promises:
  assumes "i < length urls"
  shows "map (\<lambda>(idx, item). processItem env outputDir (i + idx + 1) item)
       (zip [0..<length (take batchSize (drop i urls))] (take batchSize (drop i urls)))
     = map (\<lambda>k. processItem env outputDir (Suc k) (urls ! k))
         [i..<min (i + batchSize) (length urls)]"
    (is "?l = ?r")
proof (rule nth_equalityI)
  show "length ?l = length ?r" using assms by (auto simp: min_def)
next
  fix j
  assume "j < length ?l"
  then have j: "j < batchSize" "i + j < length urls" by auto
  then have m: "i + j < min (i + batchSize) (length urls)" by simp
  then have "j < length [i..<min (i + batchSize) (length urls)]" by (simp add: min_def split: if_splits)
  then have "?r ! j = processItem env outputDir
      (Suc ([i..<min (i + batchSize) (length urls)] ! j))
      (urls ! ([i..<min (i + batchSize) (length urls)] ! j))"
    by (rule nth_map)
  also have "[i..<min (i + batchSize) (length urls)] ! j = i + j"
    using m by (rule nth_upt)
  finally have r: "?r ! j = processItem env outputDir (Suc (i + j)) (urls ! (i + j))" .
  have "?l ! j = processItem env outputDir (i + j + 1) (urls ! (i + j))"
    using j by simp
  with r show "?l ! j = ?r ! j" by simp
qed

lemma classified_batchStep_zip:
  "settlesFairly env \<Longrightarrow>
   classified (batchStep env outputDir onProgress urls i st)
     = classified st
       + mset (map (\<lambda>(idx, item). processItem env outputDir (i + idx + 1) item)
           (zip [0..<length (take batchSize (drop i urls))] (take batchSize (drop i urls))))"
  by (simp add: batchStep_def Let_def classified_foldl_settle settlesFairly_def)

lemma classified_batchStep:
  assumes "settlesFairly env" and "i < length urls"
  shows "classified (batchStep env outputDir onProgress urls i st)
     = classified st
       + mset (map (\<lambda>k. processItem env outputDir (Suc k) (urls ! k))
                [i..<min (i + batchSize) (length urls)])"
  using classified_batchStep_zip [OF assms(1), of outputDir onProgress urls i st]
  by (simp only: batch_promises [OF assms(2)])

lemma classified_processBatches:
  assumes "settlesFairly env"
  shows "classified (processBatches env outputDir onProgress urls i st)
     = classified st
       + mset (map (\<lambda>k. processItem env outputDir (Suc k) (urls ! k)) [i..<length urls])"
proof (induction "length urls - i" arbitrary: i st rule: less_induct)
  case less
  show ?case
  proof (cases "i < length urls")
    case False
    then show ?thesis by (simp add: processBatches_done)
  next
    case True
    let ?f = "\<lambda>k. processItem env outputDir (Suc k) (urls ! k)"
    let ?m = "min (i + batchSize) (length urls)"
    from True have "length urls - (i + batchSize) < length urls - i" by (simp add: batchSize_def)
    from less [OF this]
    have ih: "classified (processBatches env outputDir onProgress urls (i + batchSize)
                 (batchStep env outputDir onProgress urls i st))
        = classified (batchStep env outputDir onProgress urls i st)
          + mset (map ?f [i + batchSize..<length urls])" .
    have "[i..<length urls] = [i..<?m] @ [?m..<length urls]"
      using True upt_add_eq_append [of i ?m "length urls - ?m"] by simp
    moreover have "[?m..<length urls] = [i + batchSize..<length urls]"
      by (simp add: min_def)
    ultimately have "mset (map ?f [i..<length urls])
        = mset (map ?f [i..<?m]) + mset (map ?f [i + batchSize..<length urls])"
      by simp
    then show ?thesis
      using True ih classified_batchStep [OF assms True, of outputDir onProgress st]
      by (simp add: processBatches_step)
  qed
qed

lemma classified_processUrls:
  "settlesFairly env \<Longrightarrow>
   classified (processUrls env urls outputDir onProgress)
     = mset (map (\<lambda>k. processItem env outputDir (Suc k) (urls ! k)) [0..<length urls])"
  by (simp add: processUrls_def classified_processBatches) (simp add: classified_def)


lemma settledIndex_processItem [simp]: "settledIndex (processItem env outputDir k item) = k"
  by (simp add: processItem_def Let_def split: conversion.splits sum.splits)


lemma processItem_eq:
  "processItem env outputDir (Suc k) (urls ! k) =
     (case conversionOf env urls k of
        Success fileUrl n \<Rightarrow>
          (case env_join env outputDir (nameOf urls k) of
             Inl err \<Rightarrow>
               Failed \<lparr>url = url (urls ! k), label = js_or (label (urls ! k)) (JStr []),
                       fileName = nameOf urls k, index = Suc k, error = JStr (message err)\<rparr>
           | Inr path \<Rightarrow>
               (case downloadOf env k fileUrl path of
                  Resolved p \<Rightarrow>
                    Succeeded \<lparr>url = url (urls ! k), label = js_or (label (urls ! k)) (JStr []),
                               fileName = nameOf urls k, index = Suc k, localPath = path\<rparr>
                | Rejected err \<Rightarrow>
                    Failed \<lparr>url = url (urls ! k), label = js_or (label (urls ! k)) (JStr []),
                            fileName = nameOf urls k, index = Suc k,
                            error = JStr (message err)\<rparr>))
      | Failure err n \<Rightarrow>
          Failed \<lparr>url = url (urls ! k), label = js_or (label (urls ! k)) (JStr []),
                  fileName = nameOf urls k, index = Suc k, error = err\<rparr>)"
  by (simp add: processItem_def Let_def conversionOf_def nameOf_def downloadOf_def bind_exn_def
        split: conversion.splits sum.splits download.splits)

lemma downloadPdf_resolved:
  "fst (downloadPdf get redirect_get pdfUrl path) = Resolved p \<Longrightarrow> p = path"
  by (auto simp: downloadPdf_def
        split: jsval.splits get_outcome.splits redirect_outcome.splits if_splits)

lemma success_classified: "a \<in> set (success (results st)) \<longleftrightarrow> Succeeded a \<in># classified st"
  by (auto simp: classified_def)

lemma failed_classified: "f \<in> set (failed (results st)) \<longleftrightarrow> Failed f \<in># classified st"
  by (auto simp: classified_def)

lemma settled_processUrls:
  "settlesFairly env \<Longrightarrow>
   s \<in># classified (processUrls env urls outputDir onProgress)
     \<longleftrightarrow> (\<exists>k < length urls. s = processItem env outputDir (Suc k) (urls ! k))"
  by (auto simp: classified_processUrls)


subsection \<open>The claims\<close>


lemma sample_fair: "settlesFairly sampleEnv"
  by (simp add: settlesFairly_def sampleEnv_def)

lemma sample_length: "length sampleUrls = 12"
  by (simp add: sampleUrls_def)




text \<open>
  Claim C3. When the conversion of the item at position \<open>k\<close> succeeds and the download
  that follows is rejected with an error, the result holds a failed entry with index
  \<open>k + 1\<close> carrying that error's message, and no successful entry with that index. Every
  successful entry belongs to an item whose conversion succeeded and whose download
  resolved to the entry's local path.
\<close>

theorem download_failure_classified:
  "(settlesFairly env \<and> k < length urls
      \<and> conversionOf env urls k = Success fileUrl n
      \<and> env_join env outputDir (nameOf urls k) = Inr path
      \<and> downloadOf env k fileUrl path = Rejected e
     \<longrightarrow> (\<exists>f \<in> set (failed (results (processUrls env urls outputDir onProgress))).
            index f = Suc k \<and> error f = JStr (message e))
         \<and> (\<forall>a \<in> set (success (results (processUrls env urls outputDir onProgress))).
            index a \<noteq> Suc k))
   \<and> (settlesFairly env
     \<longrightarrow> (\<forall>a \<in> set (success (results (processUrls env urls outputDir onProgress))).
            0 < index a \<and> index a \<le> length urls
            \<and> (\<exists>fileUrl n. conversionOf env urls (index a - 1) = Success fileUrl n
                 \<and> downloadOf env (index a - 1) fileUrl (localPath a) = Resolved (localPath a))))"
proof (intro conjI impI)
  let ?run = "processUrls env urls outputDir onProgress"
  assume h: "settlesFairly env \<and> k < length urls
      \<and> conversionOf env urls k = Success fileUrl n
      \<and> env_join env outputDir (nameOf urls k) = Inr path
      \<and> downloadOf env k fileUrl path = Rejected e"
  let ?f = "\<lparr>url = url (urls ! k), label = js_or (label (urls ! k)) (JStr []),
             fileName = nameOf urls k, index = Suc k, error = JStr (message e)\<rparr>"
  from h have pk: "processItem env outputDir (Suc k) (urls ! k) = Failed ?f"
    by (simp add: processItem_eq)
  with h have "Failed ?f \<in># classified ?run"
    by (auto simp: settled_processUrls)
  then have "?f \<in> set (failed (results ?run))" by (simp add: failed_classified)
  then show "\<exists>f \<in> set (failed (results ?run)). index f = Suc k \<and> error f = JStr (message e)"
    by (intro bexI [of _ ?f]) simp_all
  show "\<forall>a \<in> set (success (results ?run)). index a \<noteq> Suc k"
  proof
    fix a
    assume "a \<in> set (success (results ?run))"
    then have "Succeeded a \<in># classified ?run" by (simp add: success_classified)
    with h obtain j where j: "j < length urls"
      "Succeeded a = processItem env outputDir (Suc j) (urls ! j)"
      by (auto simp: settled_processUrls)
    from j(2) have "settledIndex (Succeeded a) = Suc j" by (simp only: settledIndex_processItem)
    then have ia: "index a = Suc j" by simp
    show "index a \<noteq> Suc k"
    proof
      assume "index a = Suc k"
      with ia have "j = k" by simp
      with j(2) pk show False by simp
    qed
  qed
next
  let ?run = "processUrls env urls outputDir onProgress"
  assume fair: "settlesFairly env"
  show "\<forall>a \<in> set (success (results ?run)).
            0 < index a \<and> index a \<le> length urls
            \<and> (\<exists>fileUrl n. conversionOf env urls (index a - 1) = Success fileUrl n
                 \<and> downloadOf env (index a - 1) fileUrl (localPath a) = Resolved (localPath a))"
  proof
    fix a
    assume "a \<in> set (success (results ?run))"
    then have "Succeeded a \<in># classified ?run" by (simp add: success_classified)
    with fair obtain j where j: "j < length urls"
      "Succeeded a = processItem env outputDir (Suc j) (urls ! j)"
      by (auto simp: settled_processUrls)
    from j(2) have "settledIndex (Succeeded a) = Suc j" by (simp only: settledIndex_processItem)
    then have ia: "index a = Suc j" by simp
    from j(2) obtain fileUrl n path p where c: "conversionOf env urls j = Success fileUrl n"
      and d: "downloadOf env j fileUrl path = Resolved p" and l: "localPath a = path"
      by (auto simp: processItem_eq split: conversion.splits sum.splits download.splits)
    from d have "p = path" unfolding downloadOf_def by (rule downloadPdf_resolved)
    with c d l ia j(1) show "0 < index a \<and> index a \<le> length urls
            \<and> (\<exists>fileUrl n. conversionOf env urls (index a - 1) = Success fileUrl n
                 \<and> downloadOf env (index a - 1) fileUrl (localPath a) = Resolved (localPath a))"
      by auto
  qed
qed


text \<open>
  An instance of C3: in the sample run the first item is converted and its download
  answers 404.
\<close>

theorem download_failure_classified_witness:
  "settlesFairly sampleEnv \<and> 0 < length sampleUrls
   \<and> conversionOf sampleEnv sampleUrls 0 = Success (JStr ''https://files/x.pdf'') (JStr ''PDF_001.pdf'')
   \<and> env_join sampleEnv ''out'' (nameOf sampleUrls 0) = Inr ''out/PDF_001.pdf''
   \<and> downloadOf sampleEnv 0 (JStr ''https://files/x.pdf'') ''out/PDF_001.pdf''
       = Rejected (Error ''HTTP 404'')
   \<and> (\<exists>f \<in> set (failed (results (processUrls sampleEnv sampleUrls ''out'' True))).
         index f = 1 \<and> error f = JStr ''HTTP 404'')
   \<and> 1 \<notin> index ` set (success (results (processUrls sampleEnv sampleUrls ''out'' True)))"
proof -
  have len: "0 < length sampleUrls" by (simp add: sample_length)
  have first: "sampleUrls ! 0 = \<lparr>url = JStr ''https://site/page'', label = JStr [],
      fileName = JStr ''PDF_001.pdf''\<rparr>"
    by (simp add: sampleUrls_def defaultName_def padStart_def String.simps numeral_2_eq_2)
  have name: "nameOf sampleUrls 0 = JStr ''PDF_001.pdf''"
    by (simp add: nameOf_def first js_or_def)
  have conv: "conversionOf sampleEnv sampleUrls 0
      = Success (JStr ''https://files/x.pdf'') (JStr ''PDF_001.pdf'')"
    by (simp add: conversionOf_def name first sampleEnv_def convertUrlToPdf_def onEnd_def
          bind_exn_def lookup_opt_def)
  have join: "env_join sampleEnv ''out'' (nameOf sampleUrls 0) = Inr ''out/PDF_001.pdf''"
    by (simp add: name sampleEnv_def)
  have dl: "downloadOf sampleEnv 0 (JStr ''https://files/x.pdf'') ''out/PDF_001.pdf''
      = Rejected (Error ''HTTP 404'')"
    by (simp add: downloadOf_def downloadPdf_def sampleEnv_def String.simps)
  from download_failure_classified [of sampleEnv 0 sampleUrls "JStr ''https://files/x.pdf''"
      "JStr ''PDF_001.pdf''" "''out''" "''out/PDF_001.pdf''" "Error ''HTTP 404''" True]
    sample_fair len conv join dl
  have "(\<exists>f \<in> set (failed (results (processUrls sampleEnv sampleUrls ''out'' True))).
            index f = Suc 0 \<and> error f = JStr (message (Error ''HTTP 404'')))
         \<and> (\<forall>a \<in> set (success (results (processUrls sampleEnv sampleUrls ''out'' True))).
            index a \<noteq> Suc 0)"
    by blast
  then have "(\<exists>f \<in> set (failed (results (processUrls sampleEnv sampleUrls ''out'' True))).
         index f = 1 \<and> error f = JStr ''HTTP 404'')
     \<and> 1 \<notin> index ` set (success (results (processUrls sampleEnv sampleUrls ''out'' True)))"
    by auto
  with sample_fair len conv join dl show ?thesis by blast
qed

section \<open>Properties of the bundle-and-mail delivery\<close>

lemma sendPdfs_try_files_upper:
  "files (snd (sendPdfs_try env pdfFiles recipientEmail folderName summary indexContent
                            zipFileName zipPath w)) - {zipPath} = files w - {zipPath}"
  by (auto simp: sendPdfs_try_def sendEmailWithZip_def unlinkSync_def Let_def
        split: zip_outcome.splits sum.splits prod.splits)

lemma sendPdfs_try_done:
  "fst (sendPdfs_try env pdfFiles recipientEmail folderName summary indexContent
                            zipFileName zipPath w) = Inr r
     \<Longrightarrow> zipPath \<notin> files (snd (sendPdfs_try env pdfFiles recipientEmail folderName summary
                            indexContent zipFileName zipPath w))"
  by (auto simp: sendPdfs_try_def sendEmailWithZip_def unlinkSync_def Let_def
        split: zip_outcome.splits sum.splits prod.splits if_splits)

text \<open>
  Claim C7. When the archive is created and is larger than 25MB (26214400 bytes), the
  delivery returns a failure whose message states the size, the 25MB maximum and the
  advice to use Google Drive delivery; no mail is handed to the transport. On every path
  of the function, that one included, the archive file does not exist afterwards and no
  other file is touched.
\<close>

theorem sendPdfsViaEmail_size_limit:
  "(createZipFromPdfs env pdfFiles (tempDir env @ ''/'' @ sanitize folderName @ ''.zip'') indexContent
        = ZipCreated bytes \<and> bytes > maxSize
     \<longrightarrow> fst (sendPdfsViaEmail env pdfFiles recipientEmail folderName summary indexContent w)
           = EmailFailed (''ZIP file too large ('' @ megabytes bytes
               @ '' MB). Maximum is 25MB. Consider using Google Drive delivery instead.'')
         \<and> \<not> emailSuccess (fst (sendPdfsViaEmail env pdfFiles recipientEmail folderName summary
                                  indexContent w))
         \<and> outbox (snd (sendPdfsViaEmail env pdfFiles recipientEmail folderName summary
                                  indexContent w)) = outbox w)
   \<and> files (snd (sendPdfsViaEmail env pdfFiles recipientEmail folderName summary indexContent w))
       = files w - {tempDir env @ ''/'' @ sanitize folderName @ ''.zip''}
   \<and> maxSize = 26214400"
proof (intro conjI impI)
  let ?zipFileName = "sanitize folderName @ ''.zip''"
  let ?zipPath = "tempDir env @ ''/'' @ sanitize folderName @ ''.zip''"
  let ?t = "sendPdfs_try env pdfFiles recipientEmail folderName summary indexContent
              ?zipFileName ?zipPath w"
  assume big: "createZipFromPdfs env pdfFiles ?zipPath indexContent = ZipCreated bytes \<and> bytes > maxSize"
  then have t: "?t = (Inr (EmailFailed (''ZIP file too large ('' @ megabytes bytes
               @ '' MB). Maximum is 25MB. Consider using Google Drive delivery instead.'')),
                  w\<lparr>files := files w - {?zipPath}\<rparr>)"
    by (simp add: sendPdfs_try_def unlinkSync_def)
  show "fst (sendPdfsViaEmail env pdfFiles recipientEmail folderName summary indexContent w)
           = EmailFailed (''ZIP file too large ('' @ megabytes bytes
               @ '' MB). Maximum is 25MB. Consider using Google Drive delivery instead.'')"
    using t by (simp add: sendPdfsViaEmail_def)
  then show "\<not> emailSuccess (fst (sendPdfsViaEmail env pdfFiles recipientEmail folderName summary
                                  indexContent w))"
    by simp
  show "outbox (snd (sendPdfsViaEmail env pdfFiles recipientEmail folderName summary
                                  indexContent w)) = outbox w"
    using t by (simp add: sendPdfsViaEmail_def)
next
  let ?zipFileName = "sanitize folderName @ ''.zip''"
  let ?zipPath = "tempDir env @ ''/'' @ sanitize folderName @ ''.zip''"
  let ?t = "sendPdfs_try env pdfFiles recipientEmail folderName summary indexContent
              ?zipFileName ?zipPath w"
  obtain r w1 where t: "?t = (r, w1)" by (cases ?t)
  have up: "files w1 - {?zipPath} = files w - {?zipPath}"
    using sendPdfs_try_files_upper [of env pdfFiles recipientEmail folderName summary indexContent
        ?zipFileName ?zipPath w] t by simp
  show "files (snd (sendPdfsViaEmail env pdfFiles recipientEmail folderName summary indexContent w))
       = files w - {?zipPath}"
  proof (cases r)
    case (Inl e)
    then show ?thesis using t up by (auto simp: sendPdfsViaEmail_def Let_def)
  next
    case (Inr res)
    then have "?zipPath \<notin> files w1"
      using sendPdfs_try_done [of env pdfFiles recipientEmail folderName summary indexContent
        ?zipFileName ?zipPath w res] t by simp
    then show ?thesis using t up Inr by (auto simp: sendPdfsViaEmail_def Let_def)
  qed
next
  show "maxSize = 26214400" by (simp add: maxSize_def)
qed


text \<open>An instance of C7: an archive of 30MB.\<close>

theorem sendPdfsViaEmail_size_limit_witness:
  "(31457280::nat) > maxSize
   \<and> fst (sendPdfsViaEmail
        \<lparr>createZipFromPdfs = (\<lambda>pdfs path content. ZipCreated 31457280),
         generateEmailHtml = (\<lambda>summary folder. Inr ''<html>''),
         initializeEmail = Inr (JStr ''sender@example.com''),
         sendMail = (\<lambda>m. Inr (JStr ''id-1'', JStr ''250 OK'')),
         tempDir = ''/app/temp''\<rparr>
        [] ''r@example.com'' ''My PDFs'' \<lparr>success = [], failed = [], total = 0\<rparr> JNull
        \<lparr>files = {''/app/temp/other.zip''}, outbox = []\<rparr>)
     = EmailFailed ''ZIP file too large (30.00 MB). Maximum is 25MB. Consider using Google Drive delivery instead.''
   \<and> outbox (snd (sendPdfsViaEmail
        \<lparr>createZipFromPdfs = (\<lambda>pdfs path content. ZipCreated 31457280),
         generateEmailHtml = (\<lambda>summary folder. Inr ''<html>''),
         initializeEmail = Inr (JStr ''sender@example.com''),
         sendMail = (\<lambda>m. Inr (JStr ''id-1'', JStr ''250 OK'')),
         tempDir = ''/app/temp''\<rparr>
        [] ''r@example.com'' ''My PDFs'' \<lparr>success = [], failed = [], total = 0\<rparr> JNull
        \<lparr>files = {''/app/temp/other.zip''}, outbox = []\<rparr>)) = []
   \<and> files (snd (sendPdfsViaEmail
        \<lparr>createZipFromPdfs = (\<lambda>pdfs path content. ZipCreated 31457280),
         generateEmailHtml = (\<lambda>summary folder. Inr ''<html>''),
         initializeEmail = Inr (JStr ''sender@example.com''),
         sendMail = (\<lambda>m. Inr (JStr ''id-1'', JStr ''250 OK'')),
         tempDir = ''/app/temp''\<rparr>
        [] ''r@example.com'' ''My PDFs'' \<lparr>success = [], failed = [], total = 0\<rparr> JNull
        \<lparr>files = {''/app/temp/other.zip''}, outbox = []\<rparr>)) = {''/app/temp/other.zip''}"
proof -
  let ?env = "\<lparr>createZipFromPdfs = (\<lambda>pdfs path content. ZipCreated 31457280),
         generateEmailHtml = (\<lambda>summary folder. Inr ''<html>''),
         initializeEmail = Inr (JStr ''sender@example.com''),
         sendMail = (\<lambda>m. Inr (JStr ''id-1'', JStr ''250 OK'')),
         tempDir = ''/app/temp''\<rparr>"
  let ?w = "\<lparr>files = {''/app/temp/other.zip''}, outbox = []\<rparr>"
  have big: "(31457280::nat) > maxSize" by (simp add: maxSize_def)
  have mb: "megabytes 31457280 = ''30.00''"
    by (simp add: megabytes_def String.simps padStart_def)
  have path: "tempDir ?env @ ''/'' @ sanitize ''My PDFs'' @ ''.zip'' = ''/app/temp/My_PDFs.zip''"
    by (simp add: sanitize_def isAlnum_def)
  have zip: "createZipFromPdfs ?env [] (tempDir ?env @ ''/'' @ sanitize ''My PDFs'' @ ''.zip'') JNull
      = ZipCreated 31457280 \<and> 31457280 > maxSize"
    using big by simp
  have rest: "files ?w - {''/app/temp/My_PDFs.zip''} = {''/app/temp/other.zip''}"
    by simp
  show ?thesis
    using sendPdfsViaEmail_size_limit [of ?env "[]" "''My PDFs''" JNull 31457280 "''r@example.com''"
        "\<lparr>success = [], failed = [], total = 0\<rparr>" ?w] zip big
    unfolding mb path rest
    by simp
qed

section \<open>Properties of the upload-and-share delivery\<close>

lemma uploadAll_eq:
  "uploadAll env folderId pdfs n acc
     = acc @ map (\<lambda>k. uploadOne env folderId (n + k) (pdfs ! k)) [0..<length pdfs]"
proof (induction pdfs arbitrary: n acc)
  case Nil
  then show ?case by simp
next
  case (Cons pdf rest)
  have "[0..<length (pdf # rest)] = 0 # map Suc [0..<length rest]"
    by (simp add: upt_conv_Cons map_Suc_upt del: upt_Suc)
  then show ?case using Cons.IH [of "Suc n" "acc @ [uploadOne env folderId n pdf]"]
    by (simp add: comp_def del: upt_Suc)
qed

lemma uploadOne_success:
  "uploadSuccess (uploadOne env folderId k (pdfFiles ! k)) = (\<not> uploadFails env folderId pdfFiles k)"
  by (auto simp: uploadOne_def uploadFails_def split: sum.splits drive_file.splits)

text \<open>
  Claim C8. When the folder is created and the share grant succeeds, the delivery
  succeeds with the folder's share link, whatever the uploads did: there is one upload
  result per artifact, in order, the result of an artifact is a failure exactly when its
  upload threw, and the two tallies count the uploads that returned and those that
  threw.
\<close>

theorem upload_failures_tolerated:
  "createFolder env folderName = Inr (DriveFile folderId name link)
     \<and> shareWithEmail env folderId recipientEmail ''reader'' = Inr shareLink
   \<longrightarrow> (\<exists>uploadResults.
         uploadPdfsToSharedFolder env pdfFiles folderName recipientEmail
           = DriveShared folderId name shareLink
               (length (filter (\<lambda>k. \<not> uploadFails env folderId pdfFiles k) [0..<length pdfFiles]))
               (length (filter (uploadFails env folderId pdfFiles) [0..<length pdfFiles]))
               uploadResults
         \<and> length uploadResults = length pdfFiles
         \<and> (\<forall>k < length pdfFiles.
               uploadSuccess (uploadResults ! k) = (\<not> uploadFails env folderId pdfFiles k)))"
proof
  assume h: "createFolder env folderName = Inr (DriveFile folderId name link)
     \<and> shareWithEmail env folderId recipientEmail ''reader'' = Inr shareLink"
  let ?rs = "map (\<lambda>k. uploadOne env folderId k (pdfFiles ! k)) [0..<length pdfFiles]"
  have rs: "uploadAll env folderId pdfFiles 0 [] = ?rs"
    by (simp add: uploadAll_eq)
  have "uploadPdfsToSharedFolder env pdfFiles folderName recipientEmail
           = DriveShared folderId name shareLink
               (length (filter (\<lambda>k. \<not> uploadFails env folderId pdfFiles k) [0..<length pdfFiles]))
               (length (filter (uploadFails env folderId pdfFiles) [0..<length pdfFiles]))
               ?rs"
    using h by (simp add: uploadPdfsToSharedFolder_def rs comp_def uploadOne_success del: upt_Suc)
  moreover have "length ?rs = length pdfFiles" by simp
  moreover have "\<forall>k < length pdfFiles.
      uploadSuccess (?rs ! k) = (\<not> uploadFails env folderId pdfFiles k)"
    by (simp add: uploadOne_success)
  ultimately show "\<exists>uploadResults.
         uploadPdfsToSharedFolder env pdfFiles folderName recipientEmail
           = DriveShared folderId name shareLink
               (length (filter (\<lambda>k. \<not> uploadFails env folderId pdfFiles k) [0..<length pdfFiles]))
               (length (filter (uploadFails env folderId pdfFiles) [0..<length pdfFiles]))
               uploadResults
         \<and> length uploadResults = length pdfFiles
         \<and> (\<forall>k < length pdfFiles.
               uploadSuccess (uploadResults ! k) = (\<not> uploadFails env folderId pdfFiles k))"
    by blast
qed

text \<open>An instance of C8: ten artifacts, the uploads at positions 3 and 7 fail.\<close>

theorem upload_failures_tolerated_witness:
  "\<exists>uploadResults.
     uploadPdfsToSharedFolder
       \<lparr>createFolder = (\<lambda>n. Inr (DriveFile (JStr ''F1'') (JStr n) (JStr ''https://drive/F1''))),
        uploadFile = (\<lambda>k path name folderId.
           if k = 3 \<or> k = 7 then Inl (Error ''quota exceeded'')
           else Inr (DriveFile (JStr ''f'') name (JStr ''https://drive/f''))),
        shareWithEmail = (\<lambda>fileId email role. Inr (JStr ''https://drive/F1?share''))\<rparr>
       (map (\<lambda>k. \<lparr>url = JStr ''https://u'', label = JStr [], fileName = JStr (defaultName k),
                   index = k, localPath = ''out/'' @ defaultName k\<rparr>) [1..<11])
       ''Batch'' ''r@example.com''
     = DriveShared (JStr ''F1'') (JStr ''Batch'') (JStr ''https://drive/F1?share'') 8 2 uploadResults
     \<and> length uploadResults = 10"
proof -
  let ?env = "\<lparr>createFolder = (\<lambda>n. Inr (DriveFile (JStr ''F1'') (JStr n) (JStr ''https://drive/F1''))),
        uploadFile = (\<lambda>k path name folderId.
           if k = 3 \<or> k = 7 then Inl (Error ''quota exceeded'')
           else Inr (DriveFile (JStr ''f'') name (JStr ''https://drive/f''))),
        shareWithEmail = (\<lambda>fileId email role. Inr (JStr ''https://drive/F1?share''))\<rparr>"
  let ?pdfs = "map (\<lambda>k. \<lparr>url = JStr ''https://u'', label = JStr [], fileName = JStr (defaultName k),
                   index = k, localPath = ''out/'' @ defaultName k\<rparr>) [1..<11]"
  have inst: "createFolder ?env ''Batch'' = Inr (DriveFile (JStr ''F1'') (JStr ''Batch'') (JStr ''https://drive/F1''))
      \<and> shareWithEmail ?env (JStr ''F1'') ''r@example.com'' ''reader'' = Inr (JStr ''https://drive/F1?share'')"
    by simp
  from upload_failures_tolerated [of ?env "''Batch''" "JStr ''F1''" "JStr ''Batch''"
        "JStr ''https://drive/F1''" "''r@example.com''" "JStr ''https://drive/F1?share''" ?pdfs] inst
  obtain rs where rs: "uploadPdfsToSharedFolder ?env ?pdfs ''Batch'' ''r@example.com''
      = DriveShared (JStr ''F1'') (JStr ''Batch'') (JStr ''https://drive/F1?share'')
          (length (filter (\<lambda>k. \<not> uploadFails ?env (JStr ''F1'') ?pdfs k) [0..<length ?pdfs]))
          (length (filter (uploadFails ?env (JStr ''F1'') ?pdfs) [0..<length ?pdfs])) rs"
    and len: "length rs = length ?pdfs"
    by blast
  have f: "uploadFails ?env (JStr ''F1'') ?pdfs = (\<lambda>k. k = 3 \<or> k = 7)"
    by (rule ext) (simp add: uploadFails_def)
  have n: "length ?pdfs = 10" by simp
  have u: "[0..<10] = [0,1,2,3,4,5,6,7,8,9::nat]"
    by (simp add: upt_rec)
  have good: "length (filter (\<lambda>k. \<not> uploadFails ?env (JStr ''F1'') ?pdfs k) [0..<length ?pdfs]) = 8"
    unfolding f n u by simp
  have bad: "length (filter (uploadFails ?env (JStr ''F1'') ?pdfs) [0..<length ?pdfs]) = 2"
    unfolding f n u by simp
  from rs [unfolded good bad] len [unfolded n] show ?thesis by blast
qed

end
